theory Spec2Isabelle
  imports Complex_Main
begin

section \<open>Closeness vitality of nx-parallel: the data model\<close>

text \<open>
  The development embeds \<^verbatim>\<open>closeness_vitality\<close> of
  \<^verbatim>\<open>nx_parallel/algorithms/vitality.py\<close>. The function calls three collaborators
  that are not code of the repository: \<^verbatim>\<open>networkx.wiener_index\<close>,
  \<^verbatim>\<open>os.cpu_count\<close> and \<^verbatim>\<open>joblib.Parallel\<close>. The first two are parameters of
  the model (an environment), so every theorem holds for whatever they answer; the
  executor is modelled by what joblib documents.
\<close>

subsection \<open>Numbers\<close>

text \<open>
  A Python number as the function handles it: a finite value, or one of the float
  specials \<^verbatim>\<open>inf\<close>, \<^verbatim>\<open>-inf\<close>, \<^verbatim>\<open>nan\<close>. Finite values are exact reals: rounding
  and overflow of finite floats are outside the model, and no theorem below uses a
  law of real subtraction that floats do not have (each states what one subtraction
  returns). Equality is identity of the value, so \<open>NaN = NaN\<close> here although
  Python's \<^verbatim>\<open>==\<close> answers False on it.
\<close>

datatype number = Fin real | PInf | MInf | NaN

text \<open>Python's \<^verbatim>\<open>a - b\<close>, with the IEEE rules for the specials.\<close>

fun py_sub :: "number \<Rightarrow> number \<Rightarrow> number" where
  "py_sub NaN _ = NaN"
| "py_sub _ NaN = NaN"
| "py_sub (Fin a) (Fin b) = Fin (a - b)"
| "py_sub (Fin _) PInf = MInf"
| "py_sub (Fin _) MInf = PInf"
| "py_sub PInf PInf = NaN"
| "py_sub PInf _ = PInf"
| "py_sub MInf MInf = NaN"
| "py_sub MInf _ = MInf"

subsection \<open>Graphs\<close>

type_synonym weight = "string option"

type_synonym attrs = "(string \<times> real) list"

text \<open>
  A networkx graph: its nodes in iteration order, its edges with their attribute
  dictionaries, and whether it is directed.
\<close>

record 'v nx_graph =
  nodes :: "'v list"
  edges :: "('v \<times> 'v \<times> attrs) list"
  directed :: bool

text \<open>\<^verbatim>\<open>G.subgraph(S)\<close>: the subgraph induced on the nodes of \<open>S\<close>.\<close>

definition subgraph :: "'v nx_graph \<Rightarrow> 'v set \<Rightarrow> 'v nx_graph" where
  "subgraph G S =
     G\<lparr>nodes := filter (\<lambda>n. n \<in> S) (nodes G),
       edges := filter (\<lambda>(u, v, a). u \<in> S \<and> v \<in> S) (edges G)\<rparr>"

subsection \<open>Errors, results, state\<close>

datatype error =
    TypeError
  | ValueError
  | AttributeError
  | NetworkXPointlessConcept
  | NetworkXError

text \<open>
  What the function returns: a float for one node, a dictionary for all nodes. The
  dictionary's values are whatever the per-node call returned.
\<close>

datatype 'v result = Scalar number | Dict "'v \<Rightarrow> 'v result option"

text \<open>
  The argument \<^verbatim>\<open>G\<close> is a reference: \<open>Graph\<close> refers to the caller's graph object,
  whose contents are in the state below; \<open>ParallelGraph\<close> refers to a wrapper object
  whose attribute \<^verbatim>\<open>graph_object\<close> holds the reference \<open>Graph\<close>. The wrapper is no
  graph itself: it has the attribute and nothing else, so iterating over it, taking
  a subgraph of it or handing it to networkx raises.
\<close>

datatype garg = Graph | ParallelGraph

text \<open>
  What \<^verbatim>\<open>wiener_index\<close> is applied to: the graph object itself, or a subgraph view
  of it. A view holds no data of its own: it is read through to the graph object when
  the oracle runs.
\<close>

datatype 'v gview = Whole_graph | Subgraph_view "'v set"

text \<open>The calls that leave the function, in the order they are made.\<close>

datatype 'v event =
    Wiener_index_call "'v gview" weight
  | Cpu_count_call
  | Parallel_call int

text \<open>
  The state the function runs in: the contents of the caller's graph object, and the
  trace of outside calls made so far.
\<close>

record 'v state =
  graph_object :: "'v nx_graph"
  events :: "'v event list"

text \<open>
  The environment: what \<^verbatim>\<open>networkx.wiener_index\<close> answers on a graph and a weight
  selector (it may raise), and what \<^verbatim>\<open>os.cpu_count()\<close> answers (\<open>None\<close> when the
  count cannot be determined).
\<close>

record 'v env =
  wiener_index_of :: "'v nx_graph \<Rightarrow> weight \<Rightarrow> error + number"
  cpu_count_of :: "int option"

section \<open>The operations\<close>

definition hasattr_graph_object :: "garg \<Rightarrow> bool" where
  "hasattr_graph_object G = (G = ParallelGraph)"

text \<open>
  \<^verbatim>\<open>G.graph_object\<close>: what the wrapper's attribute holds. Line 62 guards the read,
  so it is made on a wrapper only.
\<close>

fun get_graph_object :: "garg \<Rightarrow> garg" where
  "get_graph_object ParallelGraph = Graph"
| "get_graph_object Graph = Graph"

text \<open>
  \<^verbatim>\<open>set(G)\<close> and \<^verbatim>\<open>for v in G\<close>: the nodes of the graph that \<open>G\<close> refers to. A
  wrapper is not iterable.
\<close>

definition iter_nodes :: "'v state \<Rightarrow> garg \<Rightarrow> error + 'v list" where
  "iter_nodes s G =
     (case G of
        Graph \<Rightarrow> Inr (nodes (graph_object s))
      | ParallelGraph \<Rightarrow> Inl TypeError)"

definition view_graph :: "'v state \<Rightarrow> 'v gview \<Rightarrow> 'v nx_graph" where
  "view_graph s V =
     (case V of
        Whole_graph \<Rightarrow> graph_object s
      | Subgraph_view S \<Rightarrow> subgraph (graph_object s) S)"

definition log_event :: "'v event \<Rightarrow> 'v state \<Rightarrow> 'v state" where
  "log_event e s = s\<lparr>events := events s @ [e]\<rparr>"

text \<open>
  \<^verbatim>\<open>nx.wiener_index(G, weight=weight)\<close> for the view \<open>Whole_graph\<close>, and
  \<^verbatim>\<open>nx.wiener_index(G.subgraph(S), weight=weight)\<close> for the view \<open>Subgraph_view S\<close>.
  It reads the graph that \<open>G\<close> refers to and changes nothing. On a wrapper the graph
  methods it needs are missing.
\<close>

definition nx_wiener_index ::
  "'v env \<Rightarrow> garg \<Rightarrow> 'v gview \<Rightarrow> weight \<Rightarrow> 'v state \<Rightarrow> (error + number) \<times> 'v state" where
  "nx_wiener_index env G V weight s =
     (case G of
        Graph \<Rightarrow> wiener_index_of env (view_graph s V) weight
      | ParallelGraph \<Rightarrow> Inl AttributeError,
      log_event (Wiener_index_call V weight) s)"

definition os_cpu_count :: "'v env \<Rightarrow> 'v state \<Rightarrow> int option \<times> 'v state" where
  "os_cpu_count env s = (cpu_count_of env, log_event Cpu_count_call s)"

text \<open>
  The tasks of one \<^verbatim>\<open>Parallel\<close> call. Tasks share nothing but what they read, so
  their results are those of running them one after the other; the first failure in
  iteration order is the one reported (which of several failures surfaces depends on
  the scheduling in joblib, and no claim rests on it).
\<close>

fun run_tasks ::
  "('a \<Rightarrow> 's \<Rightarrow> (error + 'b) \<times> 's) \<Rightarrow> 'a list \<Rightarrow> 's \<Rightarrow> (error + 'b list) \<times> 's" where
  "run_tasks f [] s = (Inr [], s)"
| "run_tasks f (x # xs) s =
     (case f x s of
        (Inl e, s') \<Rightarrow> (Inl e, s')
      | (Inr y, s') \<Rightarrow>
          (case run_tasks f xs s' of
             (Inl e, s'') \<Rightarrow> (Inl e, s'')
           | (Inr ys, s'') \<Rightarrow> (Inr (y # ys), s'')))"

text \<open>
  \<^verbatim>\<open>Parallel(n_jobs=n_jobs)(delayed(f)(x) for x in xs)\<close>. joblib refuses
  \<^verbatim>\<open>n_jobs == 0\<close> with a ValueError ("n_jobs == 0 in Parallel has no meaning") before
  any task runs; for every other count it returns the tasks' results in the order of
  the input, and a task's exception reaches the caller.
\<close>

definition Parallel ::
  "int \<Rightarrow> ('v \<Rightarrow> 'v state \<Rightarrow> (error + 'b) \<times> 'v state) \<Rightarrow> 'v list \<Rightarrow> 'v state
     \<Rightarrow> (error + 'b list) \<times> 'v state" where
  "Parallel n_jobs f xs s =
     (let s = log_event (Parallel_call n_jobs) s in
      if n_jobs = 0 then (Inl ValueError, s) else run_tasks f xs s)"

text \<open>\<^verbatim>\<open>dict(pairs)\<close>: a later pair with the same key replaces the earlier one.\<close>

definition dict :: "('k \<times> 'a) list \<Rightarrow> ('k \<Rightarrow> 'a option)" where
  "dict ps = foldl (\<lambda>m (k, x). m(k \<mapsto> x)) Map.empty ps"

section \<open>closeness_vitality\<close>

text \<open>
  \<^verbatim>\<open>closeness_vitality(G, node, weight, wiener_index, n_jobs)\<close>, lines 62 to 78. The
  per-node task is the function itself with \<^verbatim>\<open>G\<close>, \<^verbatim>\<open>weight\<close> and
  \<^verbatim>\<open>wiener_index\<close> bound by \<^verbatim>\<open>partial\<close>, so \<^verbatim>\<open>n_jobs\<close> takes its default \<open>-1\<close>
  there. A node of a networkx graph is never \<^verbatim>\<open>None\<close>, so \<open>Some v\<close> is a given node.
  Every operation on the graph goes through the reference \<open>G\<close> as lines 62 and 63
  leave it.
\<close>

function closeness_vitality ::
  "'v env \<Rightarrow> garg \<Rightarrow> 'v option \<Rightarrow> weight \<Rightarrow> number option \<Rightarrow> int \<Rightarrow> 'v state
     \<Rightarrow> (error + 'v result) \<times> 'v state" where
  "closeness_vitality env G node weight wiener_index n_jobs s =
     (let G = (if hasattr_graph_object G then get_graph_object G else G) in
      case (case wiener_index of
              None \<Rightarrow> nx_wiener_index env G Whole_graph weight s
            | Some b \<Rightarrow> (Inr b, s)) of
        (Inl e, s1) \<Rightarrow> (Inl e, s1)
      | (Inr wiener_index, s1) \<Rightarrow>
          (case node of
             Some v \<Rightarrow>
               (case iter_nodes s1 G of
                  Inl e \<Rightarrow> (Inl e, s1)
                | Inr set_G \<Rightarrow>
                    (case nx_wiener_index env G (Subgraph_view (set set_G - {v})) weight s1 of
                       (Inl e, s2) \<Rightarrow> (Inl e, s2)
                     | (Inr after, s2) \<Rightarrow>
                         (Inr (Scalar (py_sub wiener_index after)), s2)))
           | None \<Rightarrow>
               (case os_cpu_count env s1 of
                  (None, s2) \<Rightarrow> (Inl TypeError, s2)
                | (Some n_cpus, s2) \<Rightarrow>
                    (let n_jobs = (if abs n_jobs > n_cpus then n_cpus else n_jobs);
                         vitality = (\<lambda>v t. closeness_vitality env G (Some v) weight
                                              (Some wiener_index) (- 1) t)
                     in case iter_nodes s2 G of
                          Inl e \<Rightarrow> (Inl e, s2)
                        | Inr vs \<Rightarrow>
                            (case Parallel n_jobs
                                    (\<lambda>v t. case vitality v t of
                                              (Inl e, t') \<Rightarrow> (Inl e, t')
                                            | (Inr r, t') \<Rightarrow> (Inr (v, r), t'))
                                    vs s2 of
                               (Inl e, s3) \<Rightarrow> (Inl e, s3)
                             | (Inr result, s3) \<Rightarrow> (Inr (Dict (dict result)), s3))))))"
  by pat_completeness auto
termination
  by (relation "measure (\<lambda>(env, G, node, weight, wiener_index, n_jobs, s).
        case node of None \<Rightarrow> 1 | Some _ \<Rightarrow> 0)") auto

declare closeness_vitality.simps [simp del]

section \<open>A reference oracle and executor environment\<close>

text \<open>
  Modelled from the spec: the Total-Distance Oracle, \<^verbatim>\<open>networkx.wiener_index\<close>, which
  is not code of the repository. The spec's glossary defines it as the sum of
  shortest-path distances over all node pairs of a graph, infinite if the graph is
  disconnected; networkx refuses the graph without nodes, and counts an edge without
  the weight attribute as 1. The theorems below quantify over every oracle; this one
  is the concrete oracle of their witnesses and counterexamples. Weights are taken to
  be non-negative.
\<close>

definition edge_weight :: "weight \<Rightarrow> attrs \<Rightarrow> real" where
  "edge_weight weight a =
     (case weight of
        None \<Rightarrow> 1
      | Some k \<Rightarrow> (case map_of a k of None \<Rightarrow> 1 | Some x \<Rightarrow> x))"

definition arcs :: "'v nx_graph \<Rightarrow> ('v \<times> 'v \<times> attrs) list" where
  "arcs G =
     (if directed G then edges G
      else edges G @ map (\<lambda>(u, v, a). (v, u, a)) (edges G))"

text \<open>
  Distances from one source, as a table over the nodes (\<open>None\<close>: not reached yet).
  One round improves every entry along every arc; as many rounds as there are nodes
  reach every node that can be reached.
\<close>

fun init_table :: "'v \<Rightarrow> 'v list \<Rightarrow> ('v \<times> real option) list" where
  "init_table u [] = []"
| "init_table u (v # vs) = (v, if v = u then Some 0 else None) # init_table u vs"

fun improve ::
  "weight \<Rightarrow> ('v \<times> real option) list \<Rightarrow> 'v \<Rightarrow> real option \<Rightarrow> ('v \<times> 'v \<times> attrs) list
     \<Rightarrow> real option" where
  "improve weight d v best [] = best"
| "improve weight d v best ((x, y, a) # as) =
     improve weight d v
       (if y = v then
          (case map_of d x of
             None \<Rightarrow> best
           | Some None \<Rightarrow> best
           | Some (Some dx) \<Rightarrow>
               (case best of
                  None \<Rightarrow> Some (dx + edge_weight weight a)
                | Some b \<Rightarrow> Some (min b (dx + edge_weight weight a))))
        else best)
       as"

fun relax_rows ::
  "weight \<Rightarrow> ('v \<times> 'v \<times> attrs) list \<Rightarrow> ('v \<times> real option) list
     \<Rightarrow> ('v \<times> real option) list \<Rightarrow> ('v \<times> real option) list" where
  "relax_rows weight as d [] = []"
| "relax_rows weight as d ((v, dv) # rows) =
     (v, improve weight d v dv as) # relax_rows weight as d rows"

fun rounds ::
  "weight \<Rightarrow> ('v \<times> 'v \<times> attrs) list \<Rightarrow> 'v list \<Rightarrow> ('v \<times> real option) list
     \<Rightarrow> ('v \<times> real option) list" where
  "rounds weight as [] d = d"
| "rounds weight as (n # ns) d = rounds weight as ns (relax_rows weight as d d)"

definition distances_from :: "'v nx_graph \<Rightarrow> weight \<Rightarrow> 'v \<Rightarrow> real option list" where
  "distances_from G weight u =
     map snd (rounds weight (arcs G) (nodes G) (init_table u (nodes G)))"

fun all_distances :: "'v nx_graph \<Rightarrow> weight \<Rightarrow> 'v list \<Rightarrow> real option list" where
  "all_distances G weight [] = []"
| "all_distances G weight (u # us) = distances_from G weight u @ all_distances G weight us"

fun total_distance :: "real option list \<Rightarrow> number" where
  "total_distance [] = Fin 0"
| "total_distance (None # ds) = PInf"
| "total_distance (Some x # ds) =
     (case total_distance ds of Fin t \<Rightarrow> Fin (x + t) | other \<Rightarrow> other)"

definition reference_wiener_index :: "'v nx_graph \<Rightarrow> weight \<Rightarrow> error + number" where
  "reference_wiener_index G weight =
     (if nodes G = [] then Inl NetworkXPointlessConcept
      else
        (case total_distance (all_distances G weight (nodes G)) of
           Fin t \<Rightarrow> Inr (Fin (if directed G then t else t / 2))
         | other \<Rightarrow> Inr other))"

text \<open>A host with four logical CPUs and the reference oracle.\<close>

definition host4 :: "int env" where
  "host4 = \<lparr>wiener_index_of = reference_wiener_index, cpu_count_of = Some 4\<rparr>"

text \<open>
  The star of the spec's scenario: centre 0, leaves 1, 2 and 3, unit weights.
\<close>

definition star3 :: "int nx_graph" where
  "star3 = \<lparr>nodes = [0, 1, 2, 3], edges = [(0, 1, []), (0, 2, []), (0, 3, [])],
            directed = False\<rparr>"

definition at_star3 :: "int state" where
  "at_star3 = \<lparr>graph_object = star3, events = []\<rparr>"

text \<open>
  The spec's other two scenarios: two nodes joined by an edge of weight 5, and the
  cycle on four nodes with unit weights.
\<close>

definition pair5 :: "int nx_graph" where
  "pair5 = \<lparr>nodes = [0, 1], edges = [(0, 1, [(''weight'', 5)])], directed = False\<rparr>"

definition cycle4 :: "int nx_graph" where
  "cycle4 = \<lparr>nodes = [0, 1, 2, 3],
             edges = [(0, 1, []), (1, 2, []), (2, 3, []), (3, 0, [])], directed = False\<rparr>"

text \<open>The vitalities of the star's nodes: the expected answer of the all-nodes call.\<close>

definition star3_vitality :: "int \<Rightarrow> int result option" where
  "star3_vitality =
     (\<lambda>v. None)(0 \<mapsto> Scalar MInf, 1 \<mapsto> Scalar (Fin 5), 2 \<mapsto> Scalar (Fin 5),
       3 \<mapsto> Scalar (Fin 5))"

section \<open>Auxiliary notions for the proofs\<close>

text \<open>The baseline the call works with: the caller's, or the oracle's answer on the whole graph.\<close>

definition baseline_of :: "'v env \<Rightarrow> 'v nx_graph \<Rightarrow> weight \<Rightarrow> number option \<Rightarrow> error + number" where
  "baseline_of env g weight wiener_index =
     (case wiener_index of None \<Rightarrow> wiener_index_of env g weight | Some b \<Rightarrow> Inr b)"

text \<open>The view of line 69: the subgraph on all nodes but \<open>v\<close>.\<close>

definition removal_view :: "'v nx_graph \<Rightarrow> 'v \<Rightarrow> 'v gview" where
  "removal_view g v = Subgraph_view (set (nodes g) - {v})"

text \<open>What the oracle answers on that view.\<close>

definition after_of :: "'v env \<Rightarrow> 'v nx_graph \<Rightarrow> weight \<Rightarrow> 'v \<Rightarrow> error + number" where
  "after_of env g weight v =
     wiener_index_of env (subgraph g (set (nodes g) - {v})) weight"

text \<open>The result of the single-node branch for a baseline \<open>b\<close>.\<close>

definition node_result :: "'v env \<Rightarrow> 'v nx_graph \<Rightarrow> weight \<Rightarrow> number \<Rightarrow> 'v \<Rightarrow> error + 'v result" where
  "node_result env g weight b v =
     (case after_of env g weight v of
        Inl e \<Rightarrow> Inl e
      | Inr a \<Rightarrow> Inr (Scalar (py_sub b a)))"

text \<open>Results of a list of computations that may fail, the first failure ending the collection.\<close>

fun collect :: "('a \<Rightarrow> error + 'b) \<Rightarrow> 'a list \<Rightarrow> error + 'b list" where
  "collect F [] = Inr []"
| "collect F (x # xs) =
     (case F x of
        Inl e \<Rightarrow> Inl e
      | Inr y \<Rightarrow> (case collect F xs of Inl e \<Rightarrow> Inl e | Inr ys \<Rightarrow> Inr (y # ys)))"

text \<open>The per-node task, once the recursive call is unfolded.\<close>

definition node_task :: "'v env \<Rightarrow> weight \<Rightarrow> number \<Rightarrow> 'v \<Rightarrow> 'v state \<Rightarrow> (error + 'v \<times> 'v result) \<times> 'v state" where
  "node_task env weight b v t =
     (case node_result env (graph_object t) weight b v of
        Inl e \<Rightarrow> Inl e
      | Inr r \<Rightarrow> Inr (v, r),
      log_event (Wiener_index_call (removal_view (graph_object t) v) weight) t)"

text \<open>Events by kind: the oracle on the whole graph, the execution-unit query or the executor, the executor alone.\<close>

fun is_baseline_call :: "'v event \<Rightarrow> bool" where
  "is_baseline_call (Wiener_index_call Whole_graph _) = True"
| "is_baseline_call _ = False"

fun is_executor_call :: "'v event \<Rightarrow> bool" where
  "is_executor_call Cpu_count_call = True"
| "is_executor_call (Parallel_call _) = True"
| "is_executor_call _ = False"

fun is_Parallel_call :: "'v event \<Rightarrow> bool" where
  "is_Parallel_call (Parallel_call _) = True"
| "is_Parallel_call _ = False"

text \<open>
  The outside calls the function makes itself, the per-node tasks apart: the baseline
  when none is given and, in all-nodes mode, the execution-unit query and the
  executor call.
\<close>

definition outer_calls ::
  "'v env \<Rightarrow> 'v nx_graph \<Rightarrow> 'v option \<Rightarrow> weight \<Rightarrow> number option \<Rightarrow> int \<Rightarrow> 'v event list" where
  "outer_calls env g node weight wiener_index n_jobs =
     (case wiener_index of None \<Rightarrow> [Wiener_index_call Whole_graph weight] | Some b \<Rightarrow> [])
     @ (case node of
          Some v \<Rightarrow> []
        | None \<Rightarrow>
            (case baseline_of env g weight wiener_index of
               Inl e \<Rightarrow> []
             | Inr b \<Rightarrow>
                 Cpu_count_call #
                 (case cpu_count_of env of
                    None \<Rightarrow> []
                  | Some n_cpus \<Rightarrow>
                      [Parallel_call (if abs n_jobs > n_cpus then n_cpus else n_jobs)])))"

section \<open>Unfolding the function\<close>

lemma graph_object_log_event [simp]: "graph_object (log_event e s) = graph_object s"
  by (simp add: log_event_def)

lemma events_log_event [simp]: "events (log_event e s) = events s @ [e]"
  by (simp add: log_event_def)

text \<open>Without lines 62 and 63 a call on a wrapper would fail at its first graph operation.\<close>

lemma wrapper_is_no_graph:
  "fst (nx_wiener_index env ParallelGraph V weight s) = Inl AttributeError
   \<and> iter_nodes s ParallelGraph = Inl TypeError"
  by (simp add: nx_wiener_index_def iter_nodes_def)

lemma unwrapped [simp]:
  "(if hasattr_graph_object G then get_graph_object G else G) = Graph"
  by (cases G) (simp_all add: hasattr_graph_object_def)

lemma cv_node_given:
  "closeness_vitality env G (Some v) weight (Some b) n_jobs s =
     (node_result env (graph_object s) weight b v,
      log_event (Wiener_index_call (removal_view (graph_object s) v) weight) s)"
  by (subst closeness_vitality.simps)
     (simp add: Let_def nx_wiener_index_def iter_nodes_def node_result_def after_of_def
        removal_view_def view_graph_def split: sum.splits)

lemma cv_node_computed:
  "closeness_vitality env G (Some v) weight None n_jobs s =
     (case wiener_index_of env (graph_object s) weight of
        Inl e \<Rightarrow> (Inl e, log_event (Wiener_index_call Whole_graph weight) s)
      | Inr b \<Rightarrow>
          (node_result env (graph_object s) weight b v,
           log_event (Wiener_index_call (removal_view (graph_object s) v) weight)
             (log_event (Wiener_index_call Whole_graph weight) s)))"
  by (subst closeness_vitality.simps)
     (simp add: Let_def nx_wiener_index_def iter_nodes_def node_result_def after_of_def
        removal_view_def view_graph_def split: sum.splits)

lemma task_eq:
  "(\<lambda>v t. case closeness_vitality env G (Some v) weight (Some b) n t of
             (Inl e, t') \<Rightarrow> (Inl e, t')
           | (Inr r, t') \<Rightarrow> (Inr (v, r), t')) = node_task env weight b"
  by (intro ext) (simp add: cv_node_given node_task_def split: sum.splits)

lemma cv_all:
  "closeness_vitality env G None weight wiener_index n_jobs s =
     (case (case wiener_index of
              None \<Rightarrow> nx_wiener_index env Graph Whole_graph weight s
            | Some b \<Rightarrow> (Inr b, s)) of
        (Inl e, s1) \<Rightarrow> (Inl e, s1)
      | (Inr b, s1) \<Rightarrow>
          (case cpu_count_of env of
             None \<Rightarrow> (Inl TypeError, log_event Cpu_count_call s1)
           | Some n_cpus \<Rightarrow>
               (case Parallel (if abs n_jobs > n_cpus then n_cpus else n_jobs)
                       (node_task env weight b) (nodes (graph_object s1))
                       (log_event Cpu_count_call s1) of
                  (Inl e, s3) \<Rightarrow> (Inl e, s3)
                | (Inr result, s3) \<Rightarrow> (Inr (Dict (dict result)), s3))))"
  by (subst closeness_vitality.simps)
     (simp add: Let_def os_cpu_count_def iter_nodes_def task_eq
        split: sum.splits option.splits prod.splits)

lemma node_task_graph [simp]: "graph_object (snd (node_task env weight b v t)) = graph_object t"
  by (simp add: node_task_def)

lemma run_node_tasks_graph [simp]:
  "graph_object (snd (run_tasks (node_task env weight b) xs t)) = graph_object t"
proof (induction xs arbitrary: t)
  case Nil
  show ?case by simp
next
  case (Cons x xs)
  obtain r t' where step: "node_task env weight b x t = (r, t')"
    by (cases "node_task env weight b x t")
  have g: "graph_object t' = graph_object t"
    using node_task_graph [of env weight b x t] step by simp
  show ?case
  proof (cases r)
    case (Inl e)
    with step g show ?thesis by simp
  next
    case (Inr y)
    obtain rs t'' where rest: "run_tasks (node_task env weight b) xs t' = (rs, t'')"
      by (cases "run_tasks (node_task env weight b) xs t'")
    have "graph_object t'' = graph_object t'"
      using Cons.IH [of t'] rest by simp
    with step Inr rest g show ?thesis by (cases rs) simp_all
  qed
qed

lemma run_node_tasks_result:
  "fst (run_tasks (node_task env weight b) xs t) =
     collect (\<lambda>v. case node_result env (graph_object t) weight b v of
                    Inl e \<Rightarrow> Inl e
                  | Inr r \<Rightarrow> Inr (v, r)) xs"
proof (induction xs arbitrary: t)
  case Nil
  show ?case by simp
next
  case (Cons x xs)
  show ?case
  proof (cases "node_result env (graph_object t) weight b x")
    case (Inl e)
    then show ?thesis by (simp add: node_task_def)
  next
    case (Inr y)
    obtain t' where step: "node_task env weight b x t = (Inr (x, y), t')"
      by (simp add: node_task_def Inr)
    have g: "graph_object t' = graph_object t"
      using node_task_graph [of env weight b x t] step by simp
    obtain rs t'' where rest: "run_tasks (node_task env weight b) xs t' = (rs, t'')"
      by (cases "run_tasks (node_task env weight b) xs t'")
    have "rs = collect (\<lambda>v. case node_result env (graph_object t) weight b v of
                    Inl e \<Rightarrow> Inl e
                  | Inr r \<Rightarrow> Inr (v, r)) xs"
      using Cons.IH [of t'] rest g by simp
    then show ?thesis
      using step rest Inr by (simp split: sum.splits)
  qed
qed

lemma run_node_tasks_filter:
  assumes "\<And>S w. \<not> P (Wiener_index_call (Subgraph_view S) w)"
  shows "filter P (events (snd (run_tasks (node_task env weight b) xs t))) = filter P (events t)"
proof (induction xs arbitrary: t)
  case Nil
  show ?case by simp
next
  case (Cons x xs)
  obtain r t' where step: "node_task env weight b x t = (r, t')"
    by (cases "node_task env weight b x t")
  have e: "filter P (events t') = filter P (events t)"
    using step assms by (auto simp: node_task_def removal_view_def)
  show ?case
  proof (cases r)
    case (Inl e)
    with step e show ?thesis by simp
  next
    case (Inr y)
    obtain rs t'' where rest: "run_tasks (node_task env weight b) xs t' = (rs, t'')"
      by (cases "run_tasks (node_task env weight b) xs t'")
    have "filter P (events t'') = filter P (events t')"
      using Cons.IH [of t'] rest by simp
    with step Inr rest e show ?thesis by (cases rs) simp_all
  qed
qed

lemma foldl_update_map_of:
  "foldl (\<lambda>m (k, x). m(k \<mapsto> x)) m ps = m ++ map_of (rev ps)"
proof (induction ps arbitrary: m)
  case Nil
  show ?case by simp
next
  case (Cons p ps)
  obtain k x where p: "p = (k, x)" by (cases p)
  have "foldl (\<lambda>m (k, x). m(k \<mapsto> x)) m (p # ps) =
          foldl (\<lambda>m (k, x). m(k \<mapsto> x)) (m(k \<mapsto> x)) ps"
    by (simp add: p)
  also have "\<dots> = m(k \<mapsto> x) ++ map_of (rev ps)"
    by (rule Cons.IH)
  also have "\<dots> = m ++ map_of (rev (p # ps))"
    by (simp add: p fun_eq_iff map_add_def split: option.splits)
  finally show ?case .
qed

lemma dict_map_of: "dict ps = map_of (rev ps)"
  by (simp add: dict_def foldl_update_map_of)

lemma dict_Cons:
  "dict ((k, x) # ps) v = (case dict ps v of Some y \<Rightarrow> Some y | None \<Rightarrow> if v = k then Some x else None)"
  by (simp add: dict_map_of map_add_def split: option.splits)

lemma dict_Nil [simp]: "dict [] v = None"
  by (simp add: dict_def)

lemma collect_keys:
  "collect (\<lambda>v. case R v of Inl e \<Rightarrow> Inl e | Inr r \<Rightarrow> Inr (v, r)) xs = Inr ps
     \<Longrightarrow> map fst ps = xs"
  by (induction xs arbitrary: ps) (auto split: sum.splits)

lemma dict_outside: "v \<notin> set (map fst ps) \<Longrightarrow> dict ps v = None"
  by (simp add: dict_map_of map_of_eq_None_iff)

lemma collect_entry:
  "collect (\<lambda>v. case R v of Inl e \<Rightarrow> Inl e | Inr r \<Rightarrow> Inr (v, r)) xs = Inr ps
     \<Longrightarrow> v \<in> set xs \<Longrightarrow> \<exists>r. R v = Inr r \<and> dict ps v = Some r"
proof (induction xs arbitrary: ps)
  case Nil
  then show ?case by simp
next
  case (Cons x xs)
  from Cons.prems(1) obtain r ps' where
    rx: "R x = Inr r" and
    rest: "collect (\<lambda>v. case R v of Inl e \<Rightarrow> Inl e | Inr r \<Rightarrow> Inr (v, r)) xs = Inr ps'" and
    ps: "ps = (x, r) # ps'"
    by (auto split: sum.splits)
  show ?case
  proof (cases "v \<in> set xs")
    case True
    from Cons.IH [OF rest True] obtain r' where "R v = Inr r'" "dict ps' v = Some r'"
      by blast
    then show ?thesis by (simp add: ps dict_Cons)
  next
    case False
    with Cons.prems(2) have vx: "v = x" by simp
    have "dict ps' v = None"
      using collect_keys [OF rest] False by (intro dict_outside) simp
    with vx rx show ?thesis by (simp add: ps dict_Cons)
  qed
qed

lemma collect_outside:
  "collect (\<lambda>v. case R v of Inl e \<Rightarrow> Inl e | Inr r \<Rightarrow> Inr (v, r)) xs = Inr ps
     \<Longrightarrow> v \<notin> set xs \<Longrightarrow> dict ps v = None"
  using collect_keys [of R xs ps] by (intro dict_outside) simp

lemma cv_node_result:
  "fst (closeness_vitality env G (Some v) weight wiener_index n_jobs s) =
     (case baseline_of env (graph_object s) weight wiener_index of
        Inl e \<Rightarrow> Inl e
      | Inr b \<Rightarrow> node_result env (graph_object s) weight b v)"
proof (cases wiener_index)
  case None
  then show ?thesis
    by (simp add: cv_node_computed baseline_of_def split: sum.splits)
next
  case (Some b)
  then show ?thesis
    by (simp add: cv_node_given baseline_of_def)
qed

lemma baseline_step:
  "(case wiener_index of
      None \<Rightarrow> nx_wiener_index env Graph Whole_graph weight s
    | Some b \<Rightarrow> (Inr b, s)) =
   (baseline_of env (graph_object s) weight wiener_index,
    case wiener_index of
      None \<Rightarrow> log_event (Wiener_index_call Whole_graph weight) s
    | Some b \<Rightarrow> s)"
  by (simp add: nx_wiener_index_def baseline_of_def view_graph_def split: option.splits)

lemma cv_all_result:
  "fst (closeness_vitality env G None weight wiener_index n_jobs s) =
     (case baseline_of env (graph_object s) weight wiener_index of
        Inl e \<Rightarrow> Inl e
      | Inr b \<Rightarrow>
          (case cpu_count_of env of
             None \<Rightarrow> Inl TypeError
           | Some n_cpus \<Rightarrow>
               if (if abs n_jobs > n_cpus then n_cpus else n_jobs) = 0 then Inl ValueError
               else
                 (case collect (\<lambda>v. case node_result env (graph_object s) weight b v of
                                       Inl e \<Rightarrow> Inl e
                                     | Inr r \<Rightarrow> Inr (v, r))
                         (nodes (graph_object s)) of
                    Inl e \<Rightarrow> Inl e
                  | Inr ps \<Rightarrow> Inr (Dict (dict ps)))))"
proof -
  define s1 where "s1 = (case wiener_index of
      None \<Rightarrow> log_event (Wiener_index_call Whole_graph weight) s
    | Some b \<Rightarrow> s)"
  have g1: "graph_object s1 = graph_object s"
    by (simp add: s1_def split: option.splits)
  show ?thesis
  proof (cases "baseline_of env (graph_object s) weight wiener_index")
    case (Inl e)
    then show ?thesis by (simp add: cv_all baseline_step)
  next
    case (Inr b)
    show ?thesis
    proof (cases "cpu_count_of env")
      case None
      with Inr show ?thesis by (simp add: cv_all baseline_step)
    next
      case (Some c)
      let ?n = "if abs n_jobs > c then c else n_jobs"
      let ?t = "log_event (Parallel_call ?n) (log_event Cpu_count_call s1)"
      have run: "fst (run_tasks (node_task env weight b) (nodes (graph_object s)) ?t) =
          collect (\<lambda>v. case node_result env (graph_object s) weight b v of
                          Inl e \<Rightarrow> Inl e
                        | Inr r \<Rightarrow> Inr (v, r)) (nodes (graph_object s))"
        using run_node_tasks_result [of env weight b "nodes (graph_object s)" ?t] g1
        by simp
      obtain rs t' where rt: "run_tasks (node_task env weight b) (nodes (graph_object s)) ?t = (rs, t')"
        by (cases "run_tasks (node_task env weight b) (nodes (graph_object s)) ?t")
      with run have rs: "rs = collect (\<lambda>v. case node_result env (graph_object s) weight b v of
                          Inl e \<Rightarrow> Inl e
                        | Inr r \<Rightarrow> Inr (v, r)) (nodes (graph_object s))"
        by simp
      show ?thesis
      proof (cases "?n = 0")
        case True
        with Inr Some show ?thesis
          by (simp add: cv_all baseline_step Parallel_def Let_def s1_def [symmetric])
      next
        case False
        with Inr Some rt rs [symmetric] g1 show ?thesis
          by (simp add: cv_all baseline_step Parallel_def Let_def s1_def [symmetric]
                split: sum.splits)
      qed
    qed
  qed
qed

section \<open>Traces\<close>

lemma run_node_tasks_events:
  "fst (run_tasks (node_task env weight b) xs t) = Inr ys \<Longrightarrow>
   events (snd (run_tasks (node_task env weight b) xs t)) =
     events t @ map (\<lambda>v. Wiener_index_call (removal_view (graph_object t) v) weight) xs"
proof (induction xs arbitrary: t ys)
  case Nil
  show ?case by simp
next
  case (Cons x xs)
  let ?t' = "log_event (Wiener_index_call (removal_view (graph_object t) x) weight) t"
  from Cons.prems obtain y where
    step: "node_task env weight b x t = (Inr y, ?t')"
    by (cases "node_result env (graph_object t) weight b x") (simp_all add: node_task_def)
  obtain rs t'' where rest: "run_tasks (node_task env weight b) xs ?t' = (rs, t'')"
    by (cases "run_tasks (node_task env weight b) xs ?t'")
  from Cons.prems step rest obtain zs where rs: "rs = Inr zs"
    by (cases rs) simp_all
  have "events t'' = events ?t' @
          map (\<lambda>v. Wiener_index_call (removal_view (graph_object ?t') v) weight) xs"
    using Cons.IH [of ?t' zs] rest rs by simp
  with step rest rs show ?case by simp
qed

lemma subgraph_all_nodes:
  assumes "\<And>u w a. (u, w, a) \<in> set (edges g) \<Longrightarrow> u \<in> set (nodes g) \<and> w \<in> set (nodes g)"
  shows "subgraph g (set (nodes g)) = g"
proof -
  have "filter (\<lambda>(u, v, a). u \<in> set (nodes g) \<and> v \<in> set (nodes g)) (edges g) = edges g"
    using assms by (intro filter_True) auto
  then show ?thesis by (simp add: subgraph_def)
qed

lemma Parallel_filter:
  assumes "\<And>S w. \<not> P (Wiener_index_call (Subgraph_view S) w)"
  shows "filter P (events (snd (Parallel n (node_task env weight b) xs t))) =
         filter P (events t @ [Parallel_call n])"
  using run_node_tasks_filter [of P env weight b xs "log_event (Parallel_call n) t", OF assms]
  by (simp add: Parallel_def Let_def)

lemma cv_events_filter:
  assumes P: "\<And>S w. \<not> P (Wiener_index_call (Subgraph_view S) w)"
  shows "filter P (events (snd (closeness_vitality env G node weight wiener_index n_jobs s))) =
         filter P (events s @ outer_calls env (graph_object s) node weight wiener_index n_jobs)"
proof (cases node)
  case (Some v)
  then show ?thesis
    by (cases wiener_index)
       (simp_all add: cv_node_given cv_node_computed outer_calls_def removal_view_def P
          split: sum.splits)
next
  case None
  define s1 where "s1 = (case wiener_index of
      None \<Rightarrow> log_event (Wiener_index_call Whole_graph weight) s
    | Some b \<Rightarrow> s)"
  have e1: "events s1 = events s @
      (case wiener_index of None \<Rightarrow> [Wiener_index_call Whole_graph weight] | Some b \<Rightarrow> [])"
    by (simp add: s1_def split: option.splits)
  show ?thesis
  proof (cases "baseline_of env (graph_object s) weight wiener_index")
    case (Inl e)
    with None e1 show ?thesis
      by (simp add: cv_all baseline_step outer_calls_def s1_def [symmetric])
  next
    case (Inr b)
    show ?thesis
    proof (cases "cpu_count_of env")
      case no: None
      with None Inr e1 show ?thesis
        by (simp add: cv_all baseline_step outer_calls_def s1_def [symmetric])
    next
      case (Some c)
      let ?n = "if abs n_jobs > c then c else n_jobs"
      obtain rs t' where rt:
        "Parallel ?n (node_task env weight b) (nodes (graph_object s1))
           (log_event Cpu_count_call s1) = (rs, t')"
        by (cases "Parallel ?n (node_task env weight b) (nodes (graph_object s1))
           (log_event Cpu_count_call s1)")
      have "filter P (events t') =
            filter P (events (log_event Cpu_count_call s1) @ [Parallel_call ?n])"
        using Parallel_filter [of P ?n env weight b "nodes (graph_object s1)"
                 "log_event Cpu_count_call s1", OF P] rt
        by simp
      with None Inr Some rt e1 show ?thesis
        by (cases rs) (simp_all add: cv_all baseline_step outer_calls_def s1_def [symmetric])
    qed
  qed
qed

lemma cv_all_events:
  assumes ok: "fst (closeness_vitality env G None weight wiener_index n_jobs s) = Inr r"
  shows "events (snd (closeness_vitality env G None weight wiener_index n_jobs s)) =
           events s @ outer_calls env (graph_object s) None weight wiener_index n_jobs
           @ map (\<lambda>v. Wiener_index_call (removal_view (graph_object s) v) weight)
               (nodes (graph_object s))"
proof -
  define s1 where "s1 = (case wiener_index of
      None \<Rightarrow> log_event (Wiener_index_call Whole_graph weight) s
    | Some b \<Rightarrow> s)"
  have e1: "events s1 = events s @
      (case wiener_index of None \<Rightarrow> [Wiener_index_call Whole_graph weight] | Some b \<Rightarrow> [])"
    by (simp add: s1_def split: option.splits)
  have g1: "graph_object s1 = graph_object s"
    by (simp add: s1_def split: option.splits)
  from ok obtain b where b: "baseline_of env (graph_object s) weight wiener_index = Inr b"
    by (cases "baseline_of env (graph_object s) weight wiener_index")
       (simp_all add: cv_all_result)
  from ok b obtain c where c: "cpu_count_of env = Some c"
    by (cases "cpu_count_of env") (simp_all add: cv_all_result)
  let ?n = "if abs n_jobs > c then c else n_jobs"
  from ok b c have n: "?n \<noteq> 0"
    by (auto simp: cv_all_result split: if_splits)
  let ?t = "log_event (Parallel_call ?n) (log_event Cpu_count_call s1)"
  obtain rs t' where rt:
    "run_tasks (node_task env weight b) (nodes (graph_object s)) ?t = (rs, t')"
    by (cases "run_tasks (node_task env weight b) (nodes (graph_object s)) ?t")
  have whole: "closeness_vitality env G None weight wiener_index n_jobs s =
      (case rs of Inl e \<Rightarrow> (Inl e, t') | Inr result \<Rightarrow> (Inr (Dict (dict result)), t'))"
    using b c n rt g1
    by (simp add: cv_all baseline_step Parallel_def Let_def s1_def [symmetric]
          split: sum.splits)
  with ok obtain ys where rs: "rs = Inr ys"
    by (cases rs) simp_all
  have "events t' = events ?t @
      map (\<lambda>v. Wiener_index_call (removal_view (graph_object ?t) v) weight)
        (nodes (graph_object s))"
    using run_node_tasks_events [of env weight b "nodes (graph_object s)" ?t ys] rt rs
    by simp
  with whole rs b c e1 g1 show ?thesis
    by (simp add: outer_calls_def)
qed

section \<open>The scenarios under the reference oracle\<close>

text \<open>
  The values the witnesses and counterexamples below rest on: the star has total
  distance 9; without its centre the leaves are disconnected; without a leaf a path
  of three nodes remains, of total distance 4.
\<close>

lemmas oracle_defs =
  host4_def after_of_def reference_wiener_index_def distances_from_def arcs_def
  edge_weight_def subgraph_def star3_def

lemma at_star3_graph: "graph_object at_star3 = star3"
  by (simp add: at_star3_def)

lemma at_star3_events: "events at_star3 = []"
  by (simp add: at_star3_def)

lemma star3_nodes: "nodes star3 = [0, 1, 2, 3]"
  by (simp add: star3_def)

lemma star3_baseline: "wiener_index_of host4 star3 None = Inr (Fin 9)"
  by (simp add: oracle_defs)

lemma star3_after_centre: "after_of host4 star3 None 0 = Inr PInf"
  by (simp add: oracle_defs)

lemma star3_after_leaf1: "after_of host4 star3 None 1 = Inr (Fin 4)"
  by (simp add: oracle_defs)

lemma star3_after_leaf2: "after_of host4 star3 None 2 = Inr (Fin 4)"
  by (simp add: oracle_defs)

lemma star3_after_leaf3: "after_of host4 star3 None 3 = Inr (Fin 4)"
  by (simp add: oracle_defs)

lemma star3_after_absent: "after_of host4 star3 None 7 = Inr (Fin 9)"
  by (simp add: oracle_defs)

lemma host4_cpus: "cpu_count_of host4 = Some 4"
  by (simp add: host4_def)

lemma star3_all_nodes:
  "n_jobs \<noteq> 0 \<Longrightarrow> abs n_jobs \<le> 4 \<Longrightarrow>
   fst (closeness_vitality host4 Graph None None None n_jobs at_star3) =
     Inr (Dict star3_vitality)"
  by (simp add: cv_all_result baseline_of_def at_star3_graph star3_baseline host4_cpus
        star3_nodes node_result_def star3_after_centre star3_after_leaf1 star3_after_leaf2
        star3_after_leaf3 dict_def star3_vitality_def)

text \<open>
  The reference oracle gives what the spec's scenarios expect: vitality 5 for either
  node of the weighted pair; total distance 8 for the cycle, and a finite vitality
  where a node is removed from it.
\<close>

lemma pair5_vitality:
  "fst (closeness_vitality host4 Graph (Some 0) (Some ''weight'') None (- 1)
          \<lparr>graph_object = pair5, events = []\<rparr>) = Inr (Scalar (Fin 5))
   \<and> fst (closeness_vitality host4 Graph (Some 1) (Some ''weight'') None (- 1)
          \<lparr>graph_object = pair5, events = []\<rparr>) = Inr (Scalar (Fin 5))"
  by (simp add: cv_node_result baseline_of_def node_result_def after_of_def host4_def
        reference_wiener_index_def distances_from_def arcs_def edge_weight_def subgraph_def
        pair5_def)

lemma cycle4_vitality:
  "wiener_index_of host4 cycle4 None = Inr (Fin 8)
   \<and> fst (closeness_vitality host4 Graph (Some 2) None None (- 1)
          \<lparr>graph_object = cycle4, events = []\<rparr>) = Inr (Scalar (Fin 4))"
  by (simp add: cv_node_result baseline_of_def node_result_def after_of_def host4_def
        reference_wiener_index_def distances_from_def arcs_def edge_weight_def subgraph_def
        cycle4_def)

section \<open>The claims\<close>

text \<open>
  C1. For a node \<open>v\<close> of the graph, the single-node call returns the value that the
  all-nodes call stores for \<open>v\<close>, for the same weight selector and the same baseline
  argument: whenever the all-nodes call returns a dictionary \<open>m\<close>, the single-node
  call returns too, and what it returns is \<open>m v\<close>. The parallelism arguments of the
  two calls need not be the same.
\<close>

theorem single_node_agrees_with_all_nodes:
  assumes all: "fst (closeness_vitality env G None weight wiener_index n_jobs s) = Inr (Dict m)"
    and v: "v \<in> set (nodes (graph_object s))"
  shows "\<exists>x. fst (closeness_vitality env G (Some v) weight wiener_index n_jobs' s) = Inr x
             \<and> m v = Some x"
proof -
  let ?g = "graph_object s"
  from all obtain b where b: "baseline_of env ?g weight wiener_index = Inr b"
    by (cases "baseline_of env ?g weight wiener_index") (simp_all add: cv_all_result)
  let ?F = "\<lambda>v. case node_result env ?g weight b v of
                   Inl e \<Rightarrow> Inl e | Inr r \<Rightarrow> Inr (v, r)"
  from all b obtain ps where ps: "collect ?F (nodes ?g) = Inr ps" and m: "m = dict ps"
    by (auto simp: cv_all_result split: option.splits if_splits sum.splits)
  from collect_entry [OF ps v] obtain r where
    "node_result env ?g weight b v = Inr r" "dict ps v = Some r"
    by blast
  with b m show ?thesis
    by (simp add: cv_node_result)
qed

theorem single_node_agrees_with_all_nodes_witness:
  "fst (closeness_vitality host4 Graph None None None (- 1) at_star3) =
     Inr (Dict star3_vitality)
   \<and> (2::int) \<in> set (nodes (graph_object at_star3))
   \<and> fst (closeness_vitality host4 Graph (Some 2) None None 3 at_star3) =
       Inr (Scalar (Fin 5))
   \<and> star3_vitality 2 = Some (Scalar (Fin 5))"
proof -
  have all: "fst (closeness_vitality host4 Graph None None None (- 1) at_star3) =
     Inr (Dict star3_vitality)"
    by (simp add: star3_all_nodes)
  have v: "(2::int) \<in> set (nodes (graph_object at_star3))"
    by (simp add: at_star3_graph star3_nodes)
  have "star3_vitality 2 = Some (Scalar (Fin 5))"
    by (simp add: star3_vitality_def)
  with single_node_agrees_with_all_nodes [OF all v, of 3] all v show ?thesis
    by auto
qed

text \<open>
  C2. Let the graph's own total distance be finite, as it is for the connected graph
  the docstring asks for. If the oracle answers infinity on the graph without \<open>v\<close>
  (removing \<open>v\<close> disconnects it), the single-node call returns negative infinity:
  as a value, not as an error, and not clamped. If the oracle answers a finite total
  there, the call returns the finite number baseline minus that total.
\<close>

theorem articulation_node_gives_negative_infinity:
  assumes "wiener_index_of env (graph_object s) weight = Inr (Fin b)"
  shows "(wiener_index_of env
            (subgraph (graph_object s) (set (nodes (graph_object s)) - {v})) weight = Inr PInf
          \<longrightarrow> fst (closeness_vitality env G (Some v) weight None n_jobs s) = Inr (Scalar MInf))
       \<and> (\<forall>a. wiener_index_of env
                 (subgraph (graph_object s) (set (nodes (graph_object s)) - {v})) weight
               = Inr (Fin a)
          \<longrightarrow> fst (closeness_vitality env G (Some v) weight None n_jobs s)
               = Inr (Scalar (Fin (b - a))))"
  using assms by (simp add: cv_node_result baseline_of_def node_result_def after_of_def)

theorem articulation_node_gives_negative_infinity_witness:
  "wiener_index_of host4 (graph_object at_star3) None = Inr (Fin 9)
   \<and> wiener_index_of host4
        (subgraph (graph_object at_star3) (set (nodes (graph_object at_star3)) - {0})) None
      = Inr PInf
   \<and> fst (closeness_vitality host4 Graph (Some 0) None None (- 1) at_star3) = Inr (Scalar MInf)
   \<and> wiener_index_of host4
        (subgraph (graph_object at_star3) (set (nodes (graph_object at_star3)) - {2})) None
      = Inr (Fin 4)
   \<and> fst (closeness_vitality host4 Graph (Some 2) None None (- 1) at_star3)
      = Inr (Scalar (Fin 5))"
proof -
  have b: "wiener_index_of host4 (graph_object at_star3) None = Inr (Fin 9)"
    by (simp add: at_star3_graph star3_baseline)
  have c: "wiener_index_of host4
        (subgraph (graph_object at_star3) (set (nodes (graph_object at_star3)) - {0})) None
      = Inr PInf"
    using star3_after_centre by (simp add: after_of_def at_star3_graph)
  have l: "wiener_index_of host4
        (subgraph (graph_object at_star3) (set (nodes (graph_object at_star3)) - {2})) None
      = Inr (Fin 4)"
    using star3_after_leaf2 by (simp add: after_of_def at_star3_graph)
  from articulation_node_gives_negative_infinity [OF b, of 0 Graph "- 1"]
       articulation_node_gives_negative_infinity [OF b, of 2 Graph "- 1"] b c l
  show ?thesis by simp
qed

text \<open>
  C3. The claim is that a value \<open>v\<close> that is no node of the graph makes the
  single-node call fail with a "node not present" error from the induced-subgraph
  step. It does not: \<^verbatim>\<open>set(G) - {node}\<close> is then the whole node set, the view is
  built on nodes of the graph only, and the call returns a number. On the star, node
  7 gets vitality 0.
\<close>

theorem absent_node_is_not_rejected_counterexample:
  "(7::int) \<notin> set (nodes (graph_object at_star3))
   \<and> fst (closeness_vitality host4 Graph (Some 7) None None (- 1) at_star3)
      = Inr (Scalar (Fin 0))"
  by (simp add: cv_node_result baseline_of_def node_result_def at_star3_graph star3_baseline
        star3_after_absent star3_nodes)

text \<open>
  C3, as amended. For a value \<open>v\<close> that is no node of the graph nothing is
  rejected: the call returns the baseline minus the oracle's answer on the subgraph
  induced on all nodes of the graph (for a graph whose edges join its own nodes, the
  graph itself, by \<open>subgraph_all_nodes\<close>), and it fails only where the oracle does.
\<close>

theorem absent_node_is_not_rejected:
  assumes "v \<notin> set (nodes (graph_object s))"
  shows "fst (closeness_vitality env G (Some v) weight wiener_index n_jobs s) =
     (case baseline_of env (graph_object s) weight wiener_index of
        Inl e \<Rightarrow> Inl e
      | Inr b \<Rightarrow>
          (case wiener_index_of env
                  (subgraph (graph_object s) (set (nodes (graph_object s)))) weight of
             Inl e \<Rightarrow> Inl e
           | Inr a \<Rightarrow> Inr (Scalar (py_sub b a))))"
proof -
  from assms have "set (nodes (graph_object s)) - {v} = set (nodes (graph_object s))"
    by auto
  then show ?thesis
    by (simp add: cv_node_result node_result_def after_of_def split: sum.splits)
qed

theorem absent_node_is_not_rejected_witness:
  "(7::int) \<notin> set (nodes (graph_object at_star3))
   \<and> baseline_of host4 (graph_object at_star3) None None = Inr (Fin 9)
   \<and> wiener_index_of host4
        (subgraph (graph_object at_star3) (set (nodes (graph_object at_star3)))) None
      = Inr (Fin 9)
   \<and> fst (closeness_vitality host4 Graph (Some 7) None None 3 at_star3)
      = Inr (Scalar (py_sub (Fin 9) (Fin 9)))"
proof -
  have v: "(7::int) \<notin> set (nodes (graph_object at_star3))"
    by (simp add: at_star3_graph star3_nodes)
  have b: "baseline_of host4 (graph_object at_star3) None None = Inr (Fin 9)"
    by (simp add: baseline_of_def at_star3_graph star3_baseline)
  have "set (nodes star3) - {7} = set (nodes star3)"
    by (simp add: star3_nodes)
  with star3_after_absent have a: "wiener_index_of host4
        (subgraph (graph_object at_star3) (set (nodes (graph_object at_star3)))) None
      = Inr (Fin 9)"
    by (simp add: after_of_def at_star3_graph)
  from absent_node_is_not_rejected [OF v, of host4 Graph None None 3] v b a
  show ?thesis by simp
qed

text \<open>
  C4. The claim is that every parallelism value, zero included, is accepted and gives
  the same dictionary. The docstring promises as much: an invalid value is replaced
  by the number of CPUs. The replacement is made only where the magnitude exceeds
  that number, and zero, which the executor refuses, is passed on as it is: on the
  star the request 0 ends in the executor's ValueError, where the request -1 returns
  the dictionary.
\<close>

theorem zero_jobs_is_rejected:
  "fst (closeness_vitality host4 Graph None None None 0 at_star3) = Inl ValueError
   \<and> fst (closeness_vitality host4 Graph None None None (- 1) at_star3) =
       Inr (Dict star3_vitality)"
  by (simp add: star3_all_nodes)
     (simp add: cv_all_result baseline_of_def at_star3_graph star3_baseline host4_cpus)

text \<open>
  Zero is the one value the claim fails for: two requests that both reach the
  executor as a count other than zero give the same result, whatever the graph, the
  oracle and the number of units.
\<close>

lemma nonzero_jobs_agree:
  assumes "cpu_count_of env = Some n_cpus"
    and "(if abs n_jobs > n_cpus then n_cpus else n_jobs) \<noteq> 0"
    and "(if abs n_jobs' > n_cpus then n_cpus else n_jobs') \<noteq> 0"
  shows "fst (closeness_vitality env G None weight wiener_index n_jobs s) =
         fst (closeness_vitality env G None weight wiener_index n_jobs' s)"
  using assms by (simp add: cv_all_result split: sum.splits)

lemma zero_jobs_always_rejected:
  assumes "baseline_of env (graph_object s) weight wiener_index = Inr b"
    and "cpu_count_of env = Some n_cpus" and "0 \<le> n_cpus"
  shows "fst (closeness_vitality env G None weight wiener_index 0 s) = Inl ValueError"
  using assms by (simp add: cv_all_result)

text \<open>
  C5. The claim is that a request whose magnitude exceeds the number of available
  units is clamped with its sign kept, so that a large negative request becomes the
  negative unit count. The code assigns the unit count itself: on a host with four
  units the request \<open>-100\<close> reaches the executor as \<open>4\<close>, not as \<open>-4\<close>.
\<close>

theorem clamp_keeps_sign_counterexample:
  "filter is_Parallel_call
     (events (snd (closeness_vitality host4 Graph None None None (- 100) at_star3)))
     = [Parallel_call 4]
   \<and> Parallel_call 4 \<noteq> (Parallel_call (- 4) :: int event)"
proof -
  have "\<And>S w. \<not> is_Parallel_call (Wiener_index_call (Subgraph_view S) w :: int event)"
    by simp
  from cv_events_filter [of is_Parallel_call host4 Graph None None None "- 100" at_star3, OF this]
  show ?thesis
    by (simp add: outer_calls_def baseline_of_def at_star3_graph at_star3_events
          star3_baseline host4_cpus)
qed

text \<open>
  C5, as amended. In all-nodes mode, once the baseline is there and the host reports
  \<open>n_cpus\<close> units, the executor is called exactly once: with \<open>n_cpus\<close> itself, a
  positive count whatever the sign of the request, when the magnitude of the request
  exceeds \<open>n_cpus\<close>, and with the request unchanged otherwise.
\<close>

theorem clamp_assigns_unit_count:
  assumes "baseline_of env (graph_object s) weight wiener_index = Inr b"
    and "cpu_count_of env = Some n_cpus"
  shows "(abs n_jobs > n_cpus \<longrightarrow>
            filter is_Parallel_call
              (events (snd (closeness_vitality env G None weight wiener_index n_jobs s)))
            = filter is_Parallel_call (events s) @ [Parallel_call n_cpus])
       \<and> (abs n_jobs \<le> n_cpus \<longrightarrow>
            filter is_Parallel_call
              (events (snd (closeness_vitality env G None weight wiener_index n_jobs s)))
            = filter is_Parallel_call (events s) @ [Parallel_call n_jobs])"
proof -
  have "\<And>S w. \<not> is_Parallel_call (Wiener_index_call (Subgraph_view S) w :: 'a event)"
    by simp
  from cv_events_filter [of is_Parallel_call env G None weight wiener_index n_jobs s, OF this]
    assms
  show ?thesis
    by (auto simp: outer_calls_def split: option.splits)
qed

theorem clamp_assigns_unit_count_witness:
  "baseline_of host4 (graph_object at_star3) None None = Inr (Fin 9)
   \<and> cpu_count_of host4 = Some 4
   \<and> abs (- 100 :: int) > 4
   \<and> filter is_Parallel_call
        (events (snd (closeness_vitality host4 Graph None None None (- 100) at_star3)))
      = filter is_Parallel_call (events at_star3) @ [Parallel_call 4]
   \<and> abs (- 2 :: int) \<le> 4
   \<and> filter is_Parallel_call
        (events (snd (closeness_vitality host4 Graph None None None (- 2) at_star3)))
      = filter is_Parallel_call (events at_star3) @ [Parallel_call (- 2)]"
proof -
  have b: "baseline_of host4 (graph_object at_star3) None None = Inr (Fin 9)"
    by (simp add: baseline_of_def at_star3_graph star3_baseline)
  from clamp_assigns_unit_count [OF b host4_cpus, of "- 100" Graph]
       clamp_assigns_unit_count [OF b host4_cpus, of "- 2" Graph] b host4_cpus
  show ?thesis by simp
qed

text \<open>
  C6. A supplied baseline equal to the oracle's answer on the graph gives the result
  of the call without one, in both modes. When no baseline is supplied the oracle
  runs on the whole graph exactly once per call, however many nodes there are and
  whatever the call returns, and never when one is supplied. In all-nodes mode that
  one value enters every entry of the dictionary, and a call that returns has made
  the baseline call, the execution-unit query, the executor call and one oracle call
  per node on that node's removal view, in this order, and nothing else.
\<close>

theorem baseline_computed_once:
  "(wiener_index_of env (graph_object s) weight = Inr b \<longrightarrow>
      fst (closeness_vitality env G node weight (Some b) n_jobs s) =
      fst (closeness_vitality env G node weight None n_jobs s))
   \<and> length (filter is_baseline_call
         (events (snd (closeness_vitality env G node weight None n_jobs s))))
       = length (filter is_baseline_call (events s)) + 1
   \<and> length (filter is_baseline_call
         (events (snd (closeness_vitality env G node weight (Some b) n_jobs s))))
       = length (filter is_baseline_call (events s))
   \<and> (\<forall>m. fst (closeness_vitality env G None weight None n_jobs s) = Inr (Dict m) \<longrightarrow>
        (\<exists>b0 n_cpus.
           wiener_index_of env (graph_object s) weight = Inr b0
         \<and> cpu_count_of env = Some n_cpus
         \<and> events (snd (closeness_vitality env G None weight None n_jobs s)) =
             events s
             @ [Wiener_index_call Whole_graph weight, Cpu_count_call,
                Parallel_call (if abs n_jobs > n_cpus then n_cpus else n_jobs)]
             @ map (\<lambda>v. Wiener_index_call
                          (Subgraph_view (set (nodes (graph_object s)) - {v})) weight)
                 (nodes (graph_object s))
         \<and> (\<forall>v \<in> set (nodes (graph_object s)).
              \<exists>a. wiener_index_of env
                     (subgraph (graph_object s) (set (nodes (graph_object s)) - {v})) weight
                   = Inr a
                 \<and> m v = Some (Scalar (py_sub b0 a)))))"
proof (intro conjI allI impI)
  assume "wiener_index_of env (graph_object s) weight = Inr b"
  then show "fst (closeness_vitality env G node weight (Some b) n_jobs s) =
      fst (closeness_vitality env G node weight None n_jobs s)"
    by (cases node) (simp_all add: cv_node_result cv_all_result baseline_of_def)
next
  have P: "\<And>S w. \<not> is_baseline_call (Wiener_index_call (Subgraph_view S) w :: 'a event)"
    by simp
  show "length (filter is_baseline_call
         (events (snd (closeness_vitality env G node weight None n_jobs s))))
       = length (filter is_baseline_call (events s)) + 1"
    using cv_events_filter [of is_baseline_call env G node weight None n_jobs s, OF P]
    by (simp add: outer_calls_def split: option.splits sum.splits)
  show "length (filter is_baseline_call
         (events (snd (closeness_vitality env G node weight (Some b) n_jobs s))))
       = length (filter is_baseline_call (events s))"
    using cv_events_filter [of is_baseline_call env G node weight "Some b" n_jobs s, OF P]
    by (simp add: outer_calls_def split: option.splits sum.splits)
next
  fix m
  assume ok: "fst (closeness_vitality env G None weight None n_jobs s) = Inr (Dict m)"
  let ?g = "graph_object s"
  from ok obtain b0 where b0: "wiener_index_of env ?g weight = Inr b0"
    by (cases "wiener_index_of env ?g weight") (simp_all add: cv_all_result baseline_of_def)
  from ok b0 obtain c where c: "cpu_count_of env = Some c"
    by (cases "cpu_count_of env") (simp_all add: cv_all_result baseline_of_def)
  let ?F = "\<lambda>v. case node_result env ?g weight b0 v of
                   Inl e \<Rightarrow> Inl e | Inr r \<Rightarrow> Inr (v, r)"
  from ok b0 c obtain ps where ps: "collect ?F (nodes ?g) = Inr ps" and m: "m = dict ps"
    by (auto simp: cv_all_result baseline_of_def split: if_splits sum.splits)
  have ev: "events (snd (closeness_vitality env G None weight None n_jobs s)) =
             events s
             @ [Wiener_index_call Whole_graph weight, Cpu_count_call,
                Parallel_call (if abs n_jobs > c then c else n_jobs)]
             @ map (\<lambda>v. Wiener_index_call (Subgraph_view (set (nodes ?g) - {v})) weight)
                 (nodes ?g)"
    using cv_all_events [OF ok] b0 c
    by (simp add: outer_calls_def baseline_of_def removal_view_def)
  have entries: "\<forall>v \<in> set (nodes ?g).
              \<exists>a. wiener_index_of env (subgraph ?g (set (nodes ?g) - {v})) weight = Inr a
                 \<and> m v = Some (Scalar (py_sub b0 a))"
  proof
    fix v assume "v \<in> set (nodes ?g)"
    from collect_entry [OF ps this] obtain r where
      "node_result env ?g weight b0 v = Inr r" "dict ps v = Some r"
      by blast
    then show "\<exists>a. wiener_index_of env (subgraph ?g (set (nodes ?g) - {v})) weight = Inr a
                 \<and> m v = Some (Scalar (py_sub b0 a))"
      by (auto simp: m node_result_def after_of_def split: sum.splits)
  qed
  from b0 c ev entries
  show "\<exists>b0 n_cpus.
           wiener_index_of env ?g weight = Inr b0
         \<and> cpu_count_of env = Some n_cpus
         \<and> events (snd (closeness_vitality env G None weight None n_jobs s)) =
             events s
             @ [Wiener_index_call Whole_graph weight, Cpu_count_call,
                Parallel_call (if abs n_jobs > n_cpus then n_cpus else n_jobs)]
             @ map (\<lambda>v. Wiener_index_call (Subgraph_view (set (nodes ?g) - {v})) weight)
                 (nodes ?g)
         \<and> (\<forall>v \<in> set (nodes ?g).
              \<exists>a. wiener_index_of env (subgraph ?g (set (nodes ?g) - {v})) weight = Inr a
                 \<and> m v = Some (Scalar (py_sub b0 a)))"
    by blast
qed

theorem baseline_computed_once_witness:
  "wiener_index_of host4 (graph_object at_star3) None = Inr (Fin 9)
   \<and> fst (closeness_vitality host4 Graph None None (Some (Fin 9)) (- 1) at_star3) =
       fst (closeness_vitality host4 Graph None None None (- 1) at_star3)
   \<and> fst (closeness_vitality host4 Graph None None None (- 1) at_star3) =
       Inr (Dict star3_vitality)
   \<and> length (filter is_baseline_call
         (events (snd (closeness_vitality host4 Graph None None None (- 1) at_star3)))) = 1
   \<and> events (snd (closeness_vitality host4 Graph None None None (- 1) at_star3)) =
       [Wiener_index_call Whole_graph None, Cpu_count_call, Parallel_call (- 1),
        Wiener_index_call (Subgraph_view {1, 2, 3}) None,
        Wiener_index_call (Subgraph_view {0, 2, 3}) None,
        Wiener_index_call (Subgraph_view {0, 1, 3}) None,
        Wiener_index_call (Subgraph_view {0, 1, 2}) None]"
proof -
  have b: "wiener_index_of host4 (graph_object at_star3) None = Inr (Fin 9)"
    by (simp add: at_star3_graph star3_baseline)
  have all: "fst (closeness_vitality host4 Graph None None None (- 1) at_star3) =
       Inr (Dict star3_vitality)"
    by (simp add: star3_all_nodes)
  have sets: "{0, 1, 2, 3} - {0} = {1, 2, 3 :: int}" "{0, 1, 2, 3} - {1} = {0, 2, 3 :: int}"
    "{0, 1, 2, 3} - {2} = {0, 1, 3 :: int}" "{0, 1, 2, 3} - {3} = {0, 1, 2 :: int}"
    by auto
  from baseline_computed_once [of host4 at_star3 None "Fin 9" Graph None "- 1"] b all
  show ?thesis
    by (simp add: at_star3_graph at_star3_events star3_nodes host4_cpus sets)
qed

text \<open>
  C7. The caller's graph is the same after the call as before it, in both modes and
  whatever the call returns: nodes, edges and edge attributes are those of the graph
  object the call started from. Removal is a subgraph view; nothing writes to the
  graph object.
\<close>

theorem graph_is_not_mutated:
  "graph_object (snd (closeness_vitality env G node weight wiener_index n_jobs s)) =
   graph_object s"
proof (cases node)
  case (Some v)
  then show ?thesis
    by (cases wiener_index) (simp_all add: cv_node_given cv_node_computed split: sum.splits)
next
  case None
  define s1 where "s1 = snd (case wiener_index of
      None \<Rightarrow> nx_wiener_index env Graph Whole_graph weight s
    | Some b \<Rightarrow> (Inr b, s))"
  have g1: "graph_object s1 = graph_object s"
    by (simp add: s1_def baseline_step split: option.splits)
  have par: "graph_object (snd (Parallel n (node_task env weight b) xs t)) = graph_object t"
    for n b xs and t :: "'a state"
    by (simp add: Parallel_def Let_def)
  show ?thesis
  proof (cases "baseline_of env (graph_object s) weight wiener_index")
    case (Inl e)
    with None g1 show ?thesis
      by (simp add: cv_all baseline_step s1_def)
  next
    case (Inr b)
    show ?thesis
    proof (cases "cpu_count_of env")
      case None' : None
      with None Inr g1 show ?thesis
        by (simp add: cv_all baseline_step s1_def)
    next
      case (Some c)
      let ?n = "if abs n_jobs > c then c else n_jobs"
      obtain rs t' where rt:
        "Parallel ?n (node_task env weight b) (nodes (graph_object s1))
           (log_event Cpu_count_call s1) = (rs, t')"
        by (cases "Parallel ?n (node_task env weight b) (nodes (graph_object s1))
           (log_event Cpu_count_call s1)")
      have "graph_object t' = graph_object s1"
        using par [of ?n b "nodes (graph_object s1)" "log_event Cpu_count_call s1"] rt by simp
      with None Inr Some rt g1 show ?thesis
        by (cases rs) (simp_all add: cv_all baseline_step s1_def)
    qed
  qed
qed

text \<open>
  C8. A call on a wrapper that exposes the graph as \<^verbatim>\<open>graph_object\<close> is the call on
  that graph, all other arguments equal: same result, same outside calls. The wrapper
  itself supports none of the graph operations (\<open>wrapper_is_no_graph\<close>); the call
  succeeds on it because every operation is made on what lines 62 and 63 read from
  the attribute.
\<close>

theorem wrapper_is_unwrapped:
  "closeness_vitality env ParallelGraph node weight wiener_index n_jobs s =
   closeness_vitality env Graph node weight wiener_index n_jobs s"
proof (cases node)
  case None
  then show ?thesis by (simp add: cv_all)
next
  case (Some v)
  then show ?thesis
    by (cases wiener_index) (simp_all add: cv_node_given cv_node_computed)
qed

text \<open>
  C9. In single-node mode \<^verbatim>\<open>n_jobs\<close> has no effect: two calls that differ in
  \<^verbatim>\<open>n_jobs\<close> alone return the same result and leave the same state, and the call
  makes neither the execution-unit query nor an executor call (the trace gains no
  such event).
\<close>

theorem single_node_ignores_n_jobs:
  "closeness_vitality env G (Some v) weight wiener_index n_jobs s =
     closeness_vitality env G (Some v) weight wiener_index n_jobs' s \<and>
   filter is_executor_call
     (events (snd (closeness_vitality env G (Some v) weight wiener_index n_jobs s))) =
   filter is_executor_call (events s)"
  by (cases wiener_index)
     (simp_all add: cv_node_given cv_node_computed removal_view_def split: sum.splits)

text \<open>
  C10. The claim is that two single-node calls that differ in the supplied baseline
  alone differ in their results by the difference of the baselines. Where removing
  the node disconnects the graph both results are negative infinity, and their
  difference is not a number: on the star, at the centre, baselines 5 and 3 give
  \<open>-inf - -inf = nan\<close>, not 2.
\<close>

theorem baseline_difference_counterexample:
  "fst (closeness_vitality host4 Graph (Some 0) None (Some (Fin 5)) (- 1) at_star3)
     = Inr (Scalar MInf)
   \<and> fst (closeness_vitality host4 Graph (Some 0) None (Some (Fin 3)) (- 1) at_star3)
     = Inr (Scalar MInf)
   \<and> py_sub MInf MInf = NaN
   \<and> py_sub (Fin 5) (Fin 3) = Fin 2"
  by (simp add: cv_node_result baseline_of_def node_result_def at_star3_graph
        star3_after_centre)

text \<open>
  C10, as amended. A supplied baseline is used as it is, without validation: the
  single-node call returns the baseline \<open>b\<close> minus the oracle's answer on the graph
  without \<open>v\<close>, by the one subtraction of line 70, whatever number \<open>b\<close> is, and the
  oracle call on that view is the only outside call it makes, so the graph's own
  total distance is never computed to check \<open>b\<close>. Nothing is said about the
  difference of two such results beyond this: where the oracle answers infinity,
  finite baselines \<open>b\<close> and \<open>b'\<close> both give negative infinity, and the difference
  of the results is not a number.
\<close>

theorem baseline_used_verbatim:
  assumes "wiener_index_of env
             (subgraph (graph_object s) (set (nodes (graph_object s)) - {v})) weight = Inr a"
  shows "closeness_vitality env G (Some v) weight (Some b) n_jobs s
           = (Inr (Scalar (py_sub b a)),
              log_event (Wiener_index_call
                           (Subgraph_view (set (nodes (graph_object s)) - {v})) weight) s)
       \<and> (\<forall>y y'. a = PInf \<longrightarrow>
            fst (closeness_vitality env G (Some v) weight (Some (Fin y)) n_jobs s)
              = Inr (Scalar MInf)
          \<and> fst (closeness_vitality env G (Some v) weight (Some (Fin y')) n_jobs s)
              = Inr (Scalar MInf)
          \<and> py_sub MInf MInf = NaN)"
  using assms
  by (simp add: cv_node_given node_result_def after_of_def removal_view_def)

theorem baseline_used_verbatim_witness:
  "wiener_index_of host4
     (subgraph (graph_object at_star3) (set (nodes (graph_object at_star3)) - {2})) None
     = Inr (Fin 4)
   \<and> closeness_vitality host4 Graph (Some 2) None (Some (Fin 100)) (- 1) at_star3
     = (Inr (Scalar (Fin 96)),
        log_event (Wiener_index_call (Subgraph_view {0, 1, 3}) None) at_star3)
   \<and> wiener_index_of host4
        (subgraph (graph_object at_star3) (set (nodes (graph_object at_star3)) - {0})) None
      = Inr PInf
   \<and> fst (closeness_vitality host4 Graph (Some 0) None (Some (Fin 5)) (- 1) at_star3)
      = Inr (Scalar MInf)
   \<and> fst (closeness_vitality host4 Graph (Some 0) None (Some (Fin 3)) (- 1) at_star3)
      = Inr (Scalar MInf)"
proof -
  have a: "wiener_index_of host4
     (subgraph (graph_object at_star3) (set (nodes (graph_object at_star3)) - {2})) None
     = Inr (Fin 4)"
    using star3_after_leaf2 by (simp add: after_of_def at_star3_graph)
  have c: "wiener_index_of host4
        (subgraph (graph_object at_star3) (set (nodes (graph_object at_star3)) - {0})) None
      = Inr PInf"
    using star3_after_centre by (simp add: after_of_def at_star3_graph)
  have sets: "{0, 1, 2, 3} - {2} = {0, 1, 3 :: int}"
    by auto
  from baseline_used_verbatim [OF a, of Graph "Fin 100" "- 1"]
       baseline_used_verbatim [OF c, of Graph "Fin 5" "- 1"] a c
  show ?thesis
    by (simp add: at_star3_graph star3_nodes sets)
qed

end
